theory Spec2Isabelle
  imports Main "HOL-Library.AList"
begin

section \<open>Strings\<close>

text \<open>
  A Python \<open>str\<close> is a sequence of Unicode code points, and \<open>len\<close> counts code points.
  A string is therefore a list of code points (natural numbers); \<open>asc\<close> turns an ASCII
  literal into such a list.
\<close>

type_synonym pstr = "nat list"

definition asc :: "string \<Rightarrow> pstr" where
  "asc s = map of_char s"

text \<open>
  \<open>str.isspace\<close>, \<open>str.strip\<close> and the pattern \<open>\s\<close> of \<open>re\<close> on a \<open>str\<close> share one
  notion of white space: the code points below.
\<close>

definition isspace :: "nat \<Rightarrow> bool" where
  "isspace c \<longleftrightarrow>
     (9 \<le> c \<and> c \<le> 13) \<or> (28 \<le> c \<and> c \<le> 32) \<or> c = 133 \<or> c = 160 \<or> c = 5760 \<or>
     (8192 \<le> c \<and> c \<le> 8202) \<or> c = 8232 \<or> c = 8233 \<or> c = 8239 \<or> c = 8287 \<or> c = 12288"

definition lstrip :: "pstr \<Rightarrow> pstr" where
  "lstrip s = dropWhile isspace s"

definition rstrip :: "pstr \<Rightarrow> pstr" where
  "rstrip s = rev (dropWhile isspace (rev s))"

definition strip :: "pstr \<Rightarrow> pstr" where
  "strip s = lstrip (rstrip s)"

text \<open>\<open>s.replace(a, b)\<close> for one-character \<open>a\<close> and \<open>b\<close>.\<close>

definition replace_char :: "nat \<Rightarrow> nat \<Rightarrow> pstr \<Rightarrow> pstr" where
  "replace_char a b s = map (\<lambda>c. if c = a then b else c) s"

text \<open>\<open>text[:m]\<close>: a negative bound counts from the end.\<close>

definition slice_to :: "pstr \<Rightarrow> int \<Rightarrow> pstr" where
  "slice_to s m = (if 0 \<le> m then take (nat m) s else take (nat (int (length s) + m)) s)"

text \<open>Decimal rendering of a non-negative integer, as \<open>str(n)\<close> and an f-string do.\<close>

fun str_nat :: "nat \<Rightarrow> pstr" where
  "str_nat n = (if n < 10 then [48 + n] else str_nat (n div 10) @ [48 + n mod 10])"

declare str_nat.simps [simp del]

section \<open>utils.py: message formatting\<close>

text \<open>The character class \<open>[\x00-\x08\x0B\x0C\x0E-\x1F\x7F]\<close> removed by \<open>sanitize_input\<close>.\<close>

definition is_ctrl :: "nat \<Rightarrow> bool" where
  "is_ctrl c \<longleftrightarrow> c \<le> 8 \<or> c = 11 \<or> c = 12 \<or> (14 \<le> c \<and> c \<le> 31) \<or> c = 127"

text \<open>
  \<open>re.sub(r'\s+', ' ', text)\<close>: every maximal run of white space becomes one space. The
  flag says whether the previous character belonged to the run being replaced.
\<close>

fun collapse_ws :: "bool \<Rightarrow> pstr \<Rightarrow> pstr" where
  "collapse_ws in_run [] = []"
| "collapse_ws in_run (c # cs) =
     (if isspace c then (if in_run then collapse_ws True cs else 32 # collapse_ws True cs)
      else c # collapse_ws False cs)"

definition sanitize_input :: "pstr \<Rightarrow> int option \<Rightarrow> bool \<Rightarrow> pstr" where
  "sanitize_input text max_length allow_newlines =
     (let t1 = strip text;
          t2 = (if \<not> allow_newlines then replace_char 13 32 (replace_char 10 32 t1) else t1);
          t3 = filter (\<lambda>c. \<not> is_ctrl c) t2;
          t4 = collapse_ws False t3
      in case max_length of
           None \<Rightarrow> t4
         | Some m \<Rightarrow> if m \<noteq> 0 \<and> int (length t4) > m then rstrip (slice_to t4 m) else t4)"

text \<open>
  A clock reading, as far as \<open>strftime\<close> uses it. \<open>datetime.now()\<close> is an input of every
  operation that reads the clock.
\<close>

record datetime =
  year :: nat
  month :: nat
  day :: nat
  hour :: nat
  minute :: nat
  second :: nat

definition pad2 :: "nat \<Rightarrow> pstr" where
  "pad2 n = (if n < 10 then 48 # str_nat n else str_nat n)"

definition pad4 :: "nat \<Rightarrow> pstr" where
  "pad4 n = replicate (4 - length (str_nat n)) 48 @ str_nat n"

text \<open>\<open>strftime("%H:%M:%S")\<close> and \<open>strftime("%Y-%m-%d %H:%M:%S")\<close>.\<close>

definition strftime_hms :: "datetime \<Rightarrow> pstr" where
  "strftime_hms t = pad2 (hour t) @ asc '':'' @ pad2 (minute t) @ asc '':'' @ pad2 (second t)"

definition strftime_full :: "datetime \<Rightarrow> pstr" where
  "strftime_full t =
     pad4 (year t) @ asc ''-'' @ pad2 (month t) @ asc ''-'' @ pad2 (day t) @ asc '' '' @
     strftime_hms t"

definition MAX_MESSAGE_LENGTH :: int where
  "MAX_MESSAGE_LENGTH = 500"

definition MAX_NICKNAME_LENGTH :: int where
  "MAX_NICKNAME_LENGTH = 20"

definition format_message :: "pstr \<Rightarrow> pstr \<Rightarrow> datetime \<Rightarrow> pstr" where
  "format_message sender content timestamp =
     (let time_str = strftime_hms timestamp;
          clean_sender = sanitize_input sender (Some MAX_NICKNAME_LENGTH) False;
          clean_content = sanitize_input content (Some MAX_MESSAGE_LENGTH) False
      in asc ''['' @ time_str @ asc ''] '' @ clean_sender @ asc '': '' @ clean_content)"

text \<open>
  Predicates used to state when \<open>sanitize_input\<close> returns a string that a second
  application leaves alone: a string with no white space at either end, and a string
  that starts or ends with one of the removed control characters.
\<close>

definition ends_ok :: "pstr \<Rightarrow> bool" where
  "ends_ok t \<longleftrightarrow> t = [] \<or> (\<not> isspace (hd t) \<and> \<not> isspace (last t))"

definition ctrl_at_ends :: "pstr \<Rightarrow> bool" where
  "ctrl_at_ends t \<longleftrightarrow> t \<noteq> [] \<and> (is_ctrl (hd t) \<or> is_ctrl (last t))"

section \<open>server.py: sockets and connections\<close>

text \<open>
  A connected socket, seen from the server: what has been written to it (one entry per
  \<open>send\<close>), whether \<open>close\<close> has been called, and whether the peer is gone (reset or
  broken pipe). \<open>send\<close> raises on a closed socket and on one whose peer is gone.
  Strings are valid Unicode text, so \<open>encode\<close> never fails.
\<close>

record sock =
  outbox :: "pstr list"
  closed :: bool
  peer_gone :: bool

definition new_sock :: "bool \<Rightarrow> sock" where
  "new_sock gone = \<lparr>outbox = [], closed = False, peer_gone = gone\<rparr>"

definition sock_send :: "sock \<Rightarrow> pstr \<Rightarrow> sock option" where
  "sock_send sk data =
     (if closed sk \<or> peer_gone sk then None else Some (sk\<lparr>outbox := outbox sk @ [data]\<rparr>))"

definition can_send :: "sock \<Rightarrow> bool" where
  "can_send sk \<longleftrightarrow> \<not> closed sk \<and> \<not> peer_gone sk"

definition sock_close :: "sock \<Rightarrow> sock" where
  "sock_close sk = sk\<lparr>closed := True\<rparr>"

text \<open>
  What one \<open>recv\<close> followed by \<open>decode\<close> yields: the decoded text (empty when the peer
  has closed), \<open>socket.timeout\<close>, \<open>ConnectionResetError\<close>, or any other exception
  (undecodable bytes among them).
\<close>

datatype recv_result = Data pstr | Timeout | ConnectionReset | OtherError

definition BUFFER_SIZE :: nat where
  "BUFFER_SIZE = 1024"

definition MAX_CLIENTS :: nat where
  "MAX_CLIENTS = 5"

definition MAX_MESSAGE_SIZE :: nat where
  "MAX_MESSAGE_SIZE = 500"

record client_connection =
  socket :: sock
  address :: "pstr \<times> nat"
  nickname :: pstr
  connected_time :: datetime
  last_activity :: datetime
  is_active :: bool

text \<open>\<open>ClientConnection.__init__\<close>: an empty nickname defaults to \<open>User_<port>\<close>.\<close>

definition ClientConnection :: "sock \<Rightarrow> pstr \<times> nat \<Rightarrow> pstr \<Rightarrow> datetime \<Rightarrow> client_connection" where
  "ClientConnection socket_obj addr nick now =
     \<lparr>socket = socket_obj, address = addr,
      nickname = (if nick \<noteq> [] then nick else asc ''User_'' @ str_nat (snd addr)),
      connected_time = now, last_activity = now, is_active = True\<rparr>"

text \<open>\<open>ClientConnection.send_message\<close>: a failed write marks the connection inactive.\<close>

definition send_message :: "client_connection \<Rightarrow> pstr \<Rightarrow> datetime \<Rightarrow> client_connection \<times> bool" where
  "send_message c message now =
     (case sock_send (socket c) message of
        Some sk \<Rightarrow> (c\<lparr>socket := sk, last_activity := now\<rparr>, True)
      | None \<Rightarrow> (c\<lparr>is_active := False\<rparr>, False))"

definition close :: "client_connection \<Rightarrow> client_connection" where
  "close c = c\<lparr>is_active := False, socket := sock_close (socket c)\<rparr>"

definition client_id_of :: "pstr \<times> nat \<Rightarrow> pstr" where
  "client_id_of addr = fst addr @ asc '':'' @ str_nat (snd addr)"

section \<open>server.py: the chat server\<close>

text \<open>
  \<open>ClientConnection\<close> objects are shared: the registry \<open>clients\<close> and the session
  thread of a connection hold the same object. The objects live in a store (\<open>heap\<close>),
  and the registry maps a client id to a reference. A Python \<open>dict\<close> keeps insertion
  order, which the broadcast loop and \<open>kick_user\<close> follow, so the registry is an
  association list. \<open>accepting\<close> says that the acceptor thread is still in its loop.
  Console output (\<open>safe_print\<close>) is not modelled. Every operation is one atomic step.
\<close>

record chat_server =
  clients :: "(pstr \<times> nat) list"
  heap :: "nat \<Rightarrow> client_connection"
  next_ref :: nat
  room_password :: pstr
  is_running :: bool
  accepting :: bool

text \<open>The sender label of system notices and of the operator's messages.\<close>

definition SYSTEM :: pstr where
  "SYSTEM = [31995, 32479]"

definition ADMIN :: pstr where
  "ADMIN = [26381, 21153, 22120, 31649, 29702, 21592]"

definition join :: "pstr \<Rightarrow> pstr list \<Rightarrow> pstr" where
  "join sep xs = (case xs of [] \<Rightarrow> [] | y # ys \<Rightarrow> y @ concat (map (\<lambda>x. sep @ x) ys))"

definition remove_client :: "chat_server \<Rightarrow> pstr \<Rightarrow> chat_server" where
  "remove_client s client_id =
     (if client_id \<in> fst ` set (clients s)
      then s\<lparr>clients := AList.delete client_id (clients s)\<rparr> else s)"

text \<open>
  The loop of \<open>broadcast_message\<close> over \<open>self.clients.items()\<close>: it returns the store
  after the writes and the ids collected in \<open>clients_to_remove\<close>.
\<close>

fun fan_out ::
  "(nat \<Rightarrow> client_connection) \<Rightarrow> (pstr \<times> nat) list \<Rightarrow> pstr \<Rightarrow> pstr \<Rightarrow> datetime \<Rightarrow>
   (nat \<Rightarrow> client_connection) \<times> pstr list" where
  "fan_out h [] exclude_client formatted now = (h, [])"
| "fan_out h ((client_id, r) # rest) exclude_client formatted now =
     (if client_id = exclude_client then fan_out h rest exclude_client formatted now
      else if \<not> is_active (h r) then
        (let (h', to_remove) = fan_out h rest exclude_client formatted now
         in (h', client_id # to_remove))
      else
        (let (c, ok) = send_message (h r) formatted now;
             (h', to_remove) = fan_out (h(r := c)) rest exclude_client formatted now
         in (h', if ok then to_remove else client_id # to_remove)))"

definition broadcast_message :: "chat_server \<Rightarrow> pstr \<Rightarrow> pstr \<Rightarrow> pstr \<Rightarrow> datetime \<Rightarrow> chat_server" where
  "broadcast_message s sender message exclude_client now =
     (if clients s = [] then s
      else
        (let formatted_message = format_message sender message now;
             (h, clients_to_remove) = fan_out (heap s) (clients s) exclude_client formatted_message now
         in foldl remove_client (s\<lparr>heap := h\<rparr>) clients_to_remove))"

text \<open>
  \<open>kick_user\<close> calls \<open>broadcast_message\<close> while it holds \<open>clients_lock\<close>, a
  non-reentrant \<open>threading.Lock\<close>. When that broadcast has an entry to remove,
  \<open>remove_client\<close> acquires the same lock again and the thread blocks for good:
  the result \<open>None\<close>.
\<close>

definition broadcast_message_locked ::
  "chat_server \<Rightarrow> pstr \<Rightarrow> pstr \<Rightarrow> pstr \<Rightarrow> datetime \<Rightarrow> chat_server option" where
  "broadcast_message_locked s sender message exclude_client now =
     (if clients s = [] then Some s
      else
        (let formatted_message = format_message sender message now;
             (h, clients_to_remove) = fan_out (heap s) (clients s) exclude_client formatted_message now
         in if clients_to_remove = [] then Some (s\<lparr>heap := h\<rparr>) else None))"

text \<open>The nicknames of the active registry entries, in registry order.\<close>

definition online_users :: "chat_server \<Rightarrow> pstr list" where
  "online_users s =
     map (\<lambda>(client_id, r). nickname (heap s r))
       (filter (\<lambda>(client_id, r). is_active (heap s r)) (clients s))"

definition help_text :: pstr where
  "help_text =
     [10, 128203, 32, 32842, 22825, 23460, 21629, 20196, 24110, 21161, 58, 10,
      47, 104, 101, 108, 112, 32, 45, 32, 26174, 31034, 27492, 24110, 21161, 20449, 24687, 10,
      47, 113, 117, 105, 116, 32, 45, 32, 36864, 20986, 32842, 22825, 23460, 10,
      47, 117, 115, 101, 114, 115, 32, 45, 32, 26597, 30475, 22312, 32447, 29992, 25143,
      21015, 34920, 10,
      47, 116, 105, 109, 101, 32, 45, 32, 26174, 31034, 24403, 21069, 26102, 38388, 10]"

definition farewell_text :: pstr where
  "farewell_text = [20877, 35265, 33, 32, 128075]"

definition users_text :: "pstr list \<Rightarrow> pstr" where
  "users_text users =
     [128101, 32, 22312, 32447, 29992, 25143, 32, 40] @ str_nat (length users) @ asc ''): '' @
     join (asc '', '') users"

definition time_text :: "datetime \<Rightarrow> pstr" where
  "time_text now = [128338, 32, 24403, 21069, 26102, 38388, 58, 32] @ strftime_full now"

definition unknown_command_text :: "pstr \<Rightarrow> pstr" where
  "unknown_command_text command =
     [10067, 32, 26410, 30693, 21629, 20196, 58, 32] @ command @
     [65292, 36755, 20837, 32] @ asc ''/help '' @ [26597, 30475, 24110, 21161]"

text \<open>
  \<open>handle_command\<close> on the connection object \<open>r\<close>. No statement in its \<open>try\<close> block can
  raise (\<open>send_message\<close> catches its own failures), so the handler is never entered.
\<close>

definition handle_command :: "chat_server \<Rightarrow> nat \<Rightarrow> pstr \<Rightarrow> datetime \<Rightarrow> chat_server" where
  "handle_command s r command now =
     (if command = asc ''/quit'' then
        (let (c, ok) = send_message (heap s r) (format_message SYSTEM farewell_text now) now
         in s\<lparr>heap := (heap s)(r := c\<lparr>is_active := False\<rparr>)\<rparr>)
      else if command = asc ''/help'' then
        (let (c, ok) = send_message (heap s r) help_text now
         in s\<lparr>heap := (heap s)(r := c)\<rparr>)
      else if command = asc ''/users'' then
        (let (c, ok) = send_message (heap s r)
                         (format_message SYSTEM (users_text (online_users s)) now) now
         in s\<lparr>heap := (heap s)(r := c)\<rparr>)
      else if command = asc ''/time'' then
        (let (c, ok) = send_message (heap s r) (format_message SYSTEM (time_text now) now) now
         in s\<lparr>heap := (heap s)(r := c)\<rparr>)
      else
        (let (c, ok) = send_message (heap s r)
                         (format_message SYSTEM (unknown_command_text command) now) now
         in s\<lparr>heap := (heap s)(r := c)\<rparr>))"

section \<open>server.py: the handshake and the acceptor\<close>

text \<open>
  \<open>str.isalnum\<close>: the string is not empty and every character is alphanumeric. On ASCII
  these are the digits and the letters; beyond ASCII the Unicode database decides, which
  is the parameter \<open>U\<close>.
\<close>

definition isalnum_char :: "(nat \<Rightarrow> bool) \<Rightarrow> nat \<Rightarrow> bool" where
  "isalnum_char U c =
     (if c < 128 then (48 \<le> c \<and> c \<le> 57) \<or> (65 \<le> c \<and> c \<le> 90) \<or> (97 \<le> c \<and> c \<le> 122)
      else U c)"

definition isalnum :: "(nat \<Rightarrow> bool) \<Rightarrow> pstr \<Rightarrow> bool" where
  "isalnum U s \<longleftrightarrow> s \<noteq> [] \<and> list_all (isalnum_char U) s"

text \<open>
  \<open>authenticate_client\<close>: the result and the socket afterwards. Every exception
  (a failed \<open>send\<close>, a timeout, any \<open>recv\<close> or \<open>decode\<close> error) makes it return \<open>False\<close>.
\<close>

definition authenticate_client :: "chat_server \<Rightarrow> sock \<Rightarrow> recv_result \<Rightarrow> bool \<times> sock" where
  "authenticate_client s client_socket password_data =
     (case sock_send client_socket (asc ''PASSWORD_REQUEST'') of
        None \<Rightarrow> (False, client_socket)
      | Some sk1 \<Rightarrow>
          (case password_data of
             Data d \<Rightarrow>
               (let client_password = strip d
                in if client_password = room_password s then
                     (case sock_send sk1 (asc ''AUTH_SUCCESS'') of
                        None \<Rightarrow> (False, sk1)
                      | Some sk2 \<Rightarrow> (True, sk2))
                   else
                     (case sock_send sk1 (asc ''AUTH_FAILED'') of
                        None \<Rightarrow> (False, sk1)
                      | Some sk2 \<Rightarrow> (False, sk2)))
           | Timeout \<Rightarrow> (False, sk1)
           | ConnectionReset \<Rightarrow> (False, sk1)
           | OtherError \<Rightarrow> (False, sk1)))"

text \<open>
  \<open>get_client_nickname\<close>; \<open>unix_time\<close> is \<open>int(time.time())\<close>. The bare \<open>except\<close> turns
  every failure into the placeholder name.
\<close>

definition placeholder_name :: "nat \<Rightarrow> pstr" where
  "placeholder_name unix_time = asc ''User_'' @ str_nat (unix_time mod 10000)"

definition get_client_nickname ::
  "(nat \<Rightarrow> bool) \<Rightarrow> sock \<Rightarrow> recv_result \<Rightarrow> nat \<Rightarrow> pstr \<times> sock" where
  "get_client_nickname U client_socket nickname_data unix_time =
     (case sock_send client_socket (asc ''NICKNAME_REQUEST'') of
        None \<Rightarrow> (placeholder_name unix_time, client_socket)
      | Some sk1 \<Rightarrow>
          (case nickname_data of
             Data d \<Rightarrow>
               (let nick = strip d
                in if nick \<noteq> [] \<and> length nick \<le> 20 \<and> isalnum U nick then (nick, sk1)
                   else (placeholder_name unix_time, sk1))
           | Timeout \<Rightarrow> (placeholder_name unix_time, sk1)
           | ConnectionReset \<Rightarrow> (placeholder_name unix_time, sk1)
           | OtherError \<Rightarrow> (placeholder_name unix_time, sk1)))"

text \<open>
  One iteration of the loop of \<open>accept_connections\<close>, for a connection from \<open>addr\<close>.
  The accepted socket is new; the environment decides whether its peer is already gone
  and what the two reads of the handshake yield. The result is the server, the socket as
  the iteration leaves it, and what became of the connection. A \<open>send\<close> of the
  server-full marker that raises is an \<open>OSError\<close> outside any inner handler: the loop's
  own handler ends the acceptor.
\<close>

datatype accept_outcome = Admitted nat | ServerFull | AuthFailed | AcceptorStopped

definition accept_connections_step ::
  "(nat \<Rightarrow> bool) \<Rightarrow> chat_server \<Rightarrow> pstr \<times> nat \<Rightarrow> bool \<Rightarrow> recv_result \<Rightarrow> recv_result \<Rightarrow>
   datetime \<Rightarrow> nat \<Rightarrow> chat_server \<times> sock \<times> accept_outcome" where
  "accept_connections_step U s client_address gone password_data nickname_data now unix_time =
     (let client_socket = new_sock gone
      in if length (clients s) \<ge> MAX_CLIENTS then
           (case sock_send client_socket (asc ''SERVER_FULL'') of
              None \<Rightarrow> (s\<lparr>accepting := False\<rparr>, client_socket, AcceptorStopped)
            | Some sk1 \<Rightarrow> (s, sock_close sk1, ServerFull))
         else
           (let (ok, sk1) = authenticate_client s client_socket password_data
            in if \<not> ok then (s, sock_close sk1, AuthFailed)
               else
                 (let (nick, sk2) = get_client_nickname U sk1 nickname_data unix_time;
                      client_connection = ClientConnection sk2 client_address nick now;
                      client_id = client_id_of client_address;
                      r = next_ref s
                  in (s\<lparr>clients := AList.update client_id r (clients s),
                        heap := (heap s)(r := client_connection),
                        next_ref := Suc r\<rparr>, sk2, Admitted r))))"

section \<open>server.py: the session of one connection\<close>

definition welcome_text :: "pstr \<Rightarrow> pstr" where
  "welcome_text nick =
     [127881, 32, 27426, 36814, 32] @ nick @ [32, 21152, 20837, 32842, 22825, 23460, 33]"

definition roster_text :: "pstr list \<Rightarrow> pstr" where
  "roster_text users =
     [128101, 32, 24403, 21069, 22312, 32447, 29992, 25143, 58, 32] @ join (asc '', '') users"

definition leave_text :: "pstr \<Rightarrow> pstr" where
  "leave_text nick = [128075, 32] @ nick @ [32, 31163, 24320, 20102, 32842, 22825, 23460]"

text \<open>\<open>handle_client\<close> before its loop: the join notice and the roster.\<close>

definition handle_client_enter :: "chat_server \<Rightarrow> nat \<Rightarrow> datetime \<Rightarrow> chat_server" where
  "handle_client_enter s r now =
     (let client_id = client_id_of (address (heap s r));
          s1 = broadcast_message s SYSTEM (welcome_text (nickname (heap s r))) client_id now;
          (c, ok) = send_message (heap s1 r)
                      (format_message SYSTEM (roster_text (online_users s1)) now) now
      in s1\<lparr>heap := (heap s1)(r := c)\<rparr>)"

text \<open>
  The body of the receive loop for one \<open>recv\<close>; the flag says whether the loop goes on
  (\<open>continue\<close> or the end of the body) or ends (\<open>break\<close>).
\<close>

definition handle_client_recv ::
  "chat_server \<Rightarrow> nat \<Rightarrow> recv_result \<Rightarrow> datetime \<Rightarrow> chat_server \<times> bool" where
  "handle_client_recv s r data now =
     (case data of
        Data d \<Rightarrow>
          (if d = [] then (s, False)
           else
             (let message = strip d
              in if message = [] then (s, True)
                 else
                   (let s1 = (if hd message = 47 then handle_command s r message now
                              else broadcast_message s (nickname (heap s r)) message
                                     (client_id_of (address (heap s r))) now)
                    in (s1\<lparr>heap := (heap s1)(r := (heap s1 r)\<lparr>last_activity := now\<rparr>)\<rparr>, True))))
      | Timeout \<Rightarrow> (s, True)
      | ConnectionReset \<Rightarrow> (s, False)
      | OtherError \<Rightarrow> (s, False))"

text \<open>
  The receive loop over the reads the environment supplies, each with its clock reading.
  The flag of the result says whether the loop has ended; with no read left the thread
  is still blocked in \<open>recv\<close>.
\<close>

fun handle_client_loop ::
  "chat_server \<Rightarrow> nat \<Rightarrow> (recv_result \<times> datetime) list \<Rightarrow> chat_server \<times> bool" where
  "handle_client_loop s r [] = (s, \<not> (is_active (heap s r) \<and> is_running s))"
| "handle_client_loop s r ((data, now) # rest) =
     (if \<not> (is_active (heap s r) \<and> is_running s) then (s, True)
      else
        (let (s1, continue) = handle_client_recv s r data now
         in if continue then handle_client_loop s1 r rest else (s1, True)))"

text \<open>The \<open>finally\<close> block: remove from the registry, close, broadcast the departure.\<close>

definition handle_client_finally :: "chat_server \<Rightarrow> nat \<Rightarrow> datetime \<Rightarrow> chat_server" where
  "handle_client_finally s r now =
     (let client_id = client_id_of (address (heap s r));
          s1 = remove_client s client_id;
          s2 = s1\<lparr>heap := (heap s1)(r := close (heap s1 r))\<rparr>
      in broadcast_message s2 SYSTEM (leave_text (nickname (heap s2 r))) [] now)"

definition handle_client ::
  "chat_server \<Rightarrow> nat \<Rightarrow> datetime \<Rightarrow> (recv_result \<times> datetime) list \<Rightarrow> datetime \<Rightarrow>
   chat_server \<times> bool" where
  "handle_client s r now0 reads now1 =
     (let s1 = handle_client_enter s r now0;
          (s2, ended) = handle_client_loop s1 r reads
      in if ended then (handle_client_finally s2 r now1, True) else (s2, False))"

section \<open>server.py: the operator console\<close>

definition kicked_text :: pstr where
  "kicked_text = [20320, 24050, 34987, 31649, 29702, 21592, 36386, 20986, 32842, 22825, 23460]"

definition kick_notice_text :: "pstr \<Rightarrow> pstr" where
  "kick_notice_text username =
     username @ [32, 34987, 31649, 29702, 21592, 36386, 20986, 32842, 22825, 23460]"

definition shutdown_text :: pstr where
  "shutdown_text =
     [128721, 32, 26381, 21153, 22120, 21363, 23558, 20851, 38381, 65292, 24863, 35874,
      20351, 29992, 65281]"

text \<open>
  \<open>kick_user\<close>: the first registry entry with the name that is active is notified,
  marked inactive and its kick is broadcast to the others; it stays in the registry.
  The whole body runs under \<open>clients_lock\<close>.
\<close>

definition kick_user :: "chat_server \<Rightarrow> pstr \<Rightarrow> datetime \<Rightarrow> chat_server option" where
  "kick_user s username now =
     (case find (\<lambda>(client_id, r). nickname (heap s r) = username \<and> is_active (heap s r))
             (clients s) of
        None \<Rightarrow> Some s
      | Some (client_id, r) \<Rightarrow>
          (let (c, ok) = send_message (heap s r) (format_message SYSTEM kicked_text now) now;
               s1 = s\<lparr>heap := (heap s)(r := c\<lparr>is_active := False\<rparr>)\<rparr>
           in broadcast_message_locked s1 SYSTEM (kick_notice_text username) client_id now))"

definition shutdown :: "chat_server \<Rightarrow> datetime \<Rightarrow> chat_server" where
  "shutdown s now =
     (let s1 = s\<lparr>is_running := False\<rparr>;
          s2 = broadcast_message s1 SYSTEM shutdown_text [] now;
          h = foldl (\<lambda>h (client_id, r). h(r := close (h r))) (heap s2) (clients s2)
      in s2\<lparr>heap := h, clients := [], accepting := False\<rparr>)"

text \<open>One line typed at the server console (\<open>server_input_handler\<close>).\<close>

definition server_input_handler :: "chat_server \<Rightarrow> pstr \<Rightarrow> datetime \<Rightarrow> chat_server option" where
  "server_input_handler s line now =
     (let server_input = strip line
      in if server_input = [] then Some s
         else if server_input = asc ''/quit'' then Some (shutdown s now)
         else if server_input = asc ''/help'' then Some s
         else if server_input = asc ''/status'' then Some s
         else if server_input = asc ''/users'' then Some s
         else if take 6 server_input = asc ''/kick '' then
           kick_user s (strip (drop 6 server_input)) now
         else Some (broadcast_message s ADMIN server_input [] now))"

section \<open>server.py: runs of the server\<close>

text \<open>
  What can happen to a running server, one atomic step each: the acceptor takes a
  connection, a session thread enters, reads once or runs its \<open>finally\<close> block, the
  operator types a line, or the peer of a connection goes away. A run is a sequence of
  such steps; it stops with \<open>None\<close> when the console thread blocks on the lock it holds.
\<close>

datatype event =
    Accept "pstr \<times> nat" bool recv_result recv_result datetime nat
  | Enter nat datetime
  | Recv nat recv_result datetime
  | Finally nat datetime
  | Console pstr datetime
  | PeerGone nat

definition step :: "(nat \<Rightarrow> bool) \<Rightarrow> chat_server \<Rightarrow> event \<Rightarrow> chat_server option" where
  "step U s ev =
     (case ev of
        Accept addr gone pw nick now unix_time \<Rightarrow>
          (if is_running s \<and> accepting s
           then Some (fst (accept_connections_step U s addr gone pw nick now unix_time))
           else Some s)
      | Enter r now \<Rightarrow> Some (handle_client_enter s r now)
      | Recv r data now \<Rightarrow>
          (if is_active (heap s r) \<and> is_running s then Some (fst (handle_client_recv s r data now))
           else Some s)
      | Finally r now \<Rightarrow> Some (handle_client_finally s r now)
      | Console line now \<Rightarrow> server_input_handler s line now
      | PeerGone r \<Rightarrow>
          Some (s\<lparr>heap := (heap s)(r := (heap s r)\<lparr>socket := (socket (heap s r))\<lparr>peer_gone := True\<rparr>\<rparr>)\<rparr>))"

fun run :: "(nat \<Rightarrow> bool) \<Rightarrow> chat_server \<Rightarrow> event list \<Rightarrow> chat_server option" where
  "run U s [] = Some s"
| "run U s (ev # evs) = (case step U s ev of None \<Rightarrow> None | Some s' \<Rightarrow> run U s' evs)"


section \<open>client.py: sending and the interactive loop\<close>

text \<open>
  The client as far as \<open>send_message\<close>, \<open>handle_user_input\<close> and \<open>disconnect\<close> use it. The
  receiver thread, which only reads the socket and prints, is not modelled.
\<close>

record chat_client =
  client_socket :: "sock option"
  is_connected :: bool
  client_is_running :: bool
  current_input_buffer :: pstr

definition client_send_message :: "chat_client \<Rightarrow> pstr \<Rightarrow> chat_client \<times> bool" where
  "client_send_message c message =
     (case client_socket c of
        None \<Rightarrow> (c, False)
      | Some sk \<Rightarrow>
          (if \<not> is_connected c then (c, False)
           else if length message > MAX_MESSAGE_SIZE then (c, False)
           else
             (case sock_send sk message of
                Some sk' \<Rightarrow> (c\<lparr>client_socket := Some sk'\<rparr>, True)
              | None \<Rightarrow> (c\<lparr>is_connected := False\<rparr>, False))))"

text \<open>
  \<open>str.lower\<close>: an ASCII capital becomes its small letter and every other ASCII
  character stays; what becomes of the character at a position beyond ASCII is the
  parameter \<open>L\<close> (given the whole string, since Unicode lower-casing looks at context).
\<close>

definition lower :: "(pstr \<Rightarrow> nat \<Rightarrow> pstr) \<Rightarrow> pstr \<Rightarrow> pstr" where
  "lower L s =
     concat (map (\<lambda>i. let c = s ! i
                      in if c < 128 then [if 65 \<le> c \<and> c \<le> 90 then c + 32 else c] else L s i)
               [0..<length s])"

datatype user_event = Line pstr | KeyboardInterrupt | EOFError

text \<open>
  One pass through the loop of \<open>handle_user_input\<close>, for what \<open>input\<close> yields; the flag
  says whether the loop goes on.
\<close>

definition handle_user_input_step ::
  "(pstr \<Rightarrow> nat \<Rightarrow> pstr) \<Rightarrow> chat_client \<Rightarrow> user_event \<Rightarrow> chat_client \<times> bool" where
  "handle_user_input_step L c ev =
     (case ev of
        Line typed \<Rightarrow>
          (let user_input = strip typed
           in if user_input = [] then (c, True)
              else if lower L user_input \<in> set [asc ''/quit'', asc ''/exit'', asc ''/q''] then
                (fst (client_send_message c (asc ''/quit'')), False)
              else if lower L user_input = asc ''/help'' then (c, True)
              else if lower L user_input \<in> set [asc ''/clear'', asc ''/cls''] then (c, True)
              else if lower L user_input = asc ''/time'' then (c, True)
              else
                (let (c1, ok) = client_send_message c user_input
                 in if \<not> ok then (c1, False)
                    else (c1\<lparr>current_input_buffer := []\<rparr>, True)))
      | KeyboardInterrupt \<Rightarrow> (fst (client_send_message c (asc ''/quit'')), False)
      | EOFError \<Rightarrow> (fst (client_send_message c (asc ''/quit'')), False))"

text \<open>
  The loop over what the user types. The flag of the result says whether the loop has
  ended; with nothing typed the client is still waiting in \<open>input\<close>.
\<close>

fun handle_user_input ::
  "(pstr \<Rightarrow> nat \<Rightarrow> pstr) \<Rightarrow> chat_client \<Rightarrow> user_event list \<Rightarrow> chat_client \<times> bool" where
  "handle_user_input L c [] = (c, \<not> (client_is_running c \<and> is_connected c))"
| "handle_user_input L c (ev # rest) =
     (if \<not> (client_is_running c \<and> is_connected c) then (c, True)
      else
        (let (c1, continue) = handle_user_input_step L c ev
         in if continue then handle_user_input L c1 rest else (c1, True)))"

text \<open>\<open>disconnect\<close>: the client afterwards, and its socket object after \<open>close\<close>.\<close>

definition disconnect :: "chat_client \<Rightarrow> chat_client \<times> sock option" where
  "disconnect c =
     (c\<lparr>client_is_running := False, is_connected := False, client_socket := None\<rparr>,
      map_option sock_close (client_socket c))"

text \<open>
  \<open>run\<close> once the client is connected and authenticated: the interactive loop, then the
  \<open>finally\<close> block with \<open>disconnect\<close>. \<open>None\<close>: the loop is still waiting for input.
\<close>

definition client_run ::
  "(pstr \<Rightarrow> nat \<Rightarrow> pstr) \<Rightarrow> chat_client \<Rightarrow> user_event list \<Rightarrow> (chat_client \<times> sock option) option" where
  "client_run L c typed =
     (let (c1, ended) = handle_user_input L (c\<lparr>client_is_running := True\<rparr>) typed
      in if ended then Some (disconnect c1) else None)"

section \<open>Example states\<close>

text \<open>
  A clock reading and a server with two admitted clients, Alice (object 0) and Bob
  (object 1), used to run the model on concrete inputs.
\<close>

definition example_time :: datetime where
  "example_time = \<lparr>year = 2024, month = 1, day = 2, hour = 3, minute = 4, second = 5\<rparr>"

definition example_heap :: "nat \<Rightarrow> client_connection" where
  "example_heap =
     (\<lambda>r. ClientConnection (new_sock False) (asc ''10.0.0.8'', 5001) (asc ''Bob'') example_time)
     (0 := ClientConnection (new_sock False) (asc ''10.0.0.7'', 5000) (asc ''Alice'') example_time)"

definition example_server :: chat_server where
  "example_server =
     \<lparr>clients = [(asc ''10.0.0.7:5000'', 0), (asc ''10.0.0.8:5001'', 1)],
      heap = example_heap, next_ref = 2, room_password = asc ''room1'',
      is_running = True, accepting = True\<rparr>"

text \<open>
  A connected client with nothing written yet, and a lower-casing of the characters
  beyond ASCII that leaves them alone.
\<close>

definition example_client :: chat_client where
  "example_client =
     \<lparr>client_socket = Some (new_sock False), is_connected = True, client_is_running = True,
      current_input_buffer = []\<rparr>"

definition no_lower :: "pstr \<Rightarrow> nat \<Rightarrow> pstr" where
  "no_lower s i = [s ! i]"

definition no_alnum :: "nat \<Rightarrow> bool" where
  "no_alnum c = False"



section \<open>Properties of \<open>sanitize_input\<close>\<close>

lemma length_collapse_ws: "length (collapse_ws b t) \<le> length t"
  by (induction t arbitrary: b) (auto intro: le_SucI)

lemma collapse_ws_True_space: "isspace c \<Longrightarrow> collapse_ws True (c # cs) \<noteq> c # cs"
proof
  assume a: "isspace c" and e: "collapse_ws True (c # cs) = c # cs"
  have "length (collapse_ws True cs) \<le> length cs" by (rule length_collapse_ws)
  moreover from a e have "collapse_ws True cs = c # cs" by simp
  ultimately show False by simp
qed

lemma collapse_ws_idem: "collapse_ws b (collapse_ws b t) = collapse_ws b t"
  by (induction t arbitrary: b) (auto simp: isspace_def)

lemma set_collapse_ws: "set (collapse_ws b t) \<subseteq> insert 32 (set t)"
  by (induction t arbitrary: b) auto

lemma collapse_ws_take:
  "collapse_ws b t = t \<Longrightarrow> collapse_ws b (take k t) = take k t"
proof (induction t arbitrary: b k)
  case Nil
  then show ?case by simp
next
  case (Cons c cs)
  show ?case
  proof (cases k)
    case 0
    then show ?thesis by simp
  next
    case (Suc k')
    show ?thesis
    proof (cases "isspace c")
      case False
      with Cons.prems have "collapse_ws False cs = cs" by simp
      then have "collapse_ws False (take k' cs) = take k' cs" by (rule Cons.IH)
      with False Suc show ?thesis by simp
    next
      case True
      with Cons.prems collapse_ws_True_space have nb: "\<not> b" by (cases b) auto
      with True Cons.prems have "c = 32" "collapse_ws True cs = cs" by auto
      then have "collapse_ws True (take k' cs) = take k' cs" using Cons.IH by blast
      with True nb Suc \<open>c = 32\<close> show ?thesis by simp
    qed
  qed
qed

lemma rstrip_take: "rstrip t = take (length (rstrip t)) t"
proof -
  have "dropWhile isspace (rev t) = drop (length (takeWhile isspace (rev t))) (rev t)"
    by (rule dropWhile_eq_drop)
  then have "rstrip t = take (length t - length (takeWhile isspace (rev t))) t"
    by (simp add: rstrip_def rev_drop)
  then show ?thesis
    by (metis length_take min.absorb2 diff_le_self)
qed

lemma collapse_ws_rstrip: "collapse_ws b t = t \<Longrightarrow> collapse_ws b (rstrip t) = rstrip t"
  by (metis rstrip_take collapse_ws_take)

lemma collapse_ws_flag: "t = [] \<or> \<not> isspace (hd t) \<Longrightarrow> collapse_ws b t = collapse_ws False t"
  by (cases t) auto

lemma collapse_ws_lstrip:
  assumes "collapse_ws False t = t"
  shows "collapse_ws False (lstrip t) = lstrip t"
proof (cases t)
  case Nil
  then show ?thesis by (simp add: lstrip_def)
next
  case (Cons c cs)
  show ?thesis
  proof (cases "isspace c")
    case False
    with Cons assms show ?thesis by (simp add: lstrip_def)
  next
    case True
    with Cons assms have cs: "collapse_ws True cs = cs" by simp
    have hd: "cs = [] \<or> \<not> isspace (hd cs)"
    proof (cases cs)
      case Nil
      then show ?thesis by simp
    next
      case (Cons d ds)
      with cs collapse_ws_True_space show ?thesis by auto
    qed
    then have "dropWhile isspace cs = cs" by (cases cs) auto
    with True Cons have "lstrip t = cs" by (simp add: lstrip_def)
    moreover from hd cs have "collapse_ws False cs = cs" using collapse_ws_flag by metis
    ultimately show ?thesis by simp
  qed
qed

lemma collapse_ws_space_32: "collapse_ws b t = t \<Longrightarrow> c \<in> set t \<Longrightarrow> isspace c \<Longrightarrow> c = 32"
proof (induction t arbitrary: b)
  case Nil
  then show ?case by simp
next
  case (Cons d ds)
  show ?case
  proof (cases "isspace d")
    case False
    with Cons.prems have "collapse_ws False ds = ds" "c \<in> set ds" by auto
    then show ?thesis using Cons.IH Cons.prems(3) by blast
  next
    case True
    with Cons.prems(1) collapse_ws_True_space have nb: "\<not> b" by (cases b) auto
    with True Cons.prems(1) have "d = 32" "collapse_ws True ds = ds" by auto
    with Cons.prems Cons.IH show ?thesis by auto
  qed
qed

lemma length_rstrip: "length (rstrip t) \<le> length t"
  by (simp add: rstrip_def length_dropWhile_le [of isspace "rev t", simplified])

lemma length_strip: "length (strip t) \<le> length t"
  using length_rstrip [of t] length_dropWhile_le [of isspace "rstrip t"]
  by (simp add: strip_def lstrip_def)

lemma set_rstrip: "set (rstrip t) \<subseteq> set t"
  by (metis rstrip_take set_take_subset)

lemma set_strip: "set (strip t) \<subseteq> set t"
  using set_rstrip [of t] set_dropWhileD [of _ isspace "rstrip t"]
  by (auto simp: strip_def lstrip_def)

lemma ends_ok_strip: "ends_ok (strip t)"
proof (cases "strip t = []")
  case True
  then show ?thesis by (simp add: ends_ok_def)
next
  case False
  let ?r = "rstrip t"
  from False have ne: "dropWhile isspace ?r \<noteq> []" by (simp add: strip_def lstrip_def)
  then have h: "\<not> isspace (hd (strip t))"
    by (simp add: strip_def lstrip_def hd_dropWhile)
  from ne have rne: "?r \<noteq> []" by auto
  then have "dropWhile isspace (rev t) \<noteq> []" by (simp add: rstrip_def)
  then have "\<not> isspace (hd (dropWhile isspace (rev t)))" by (rule hd_dropWhile)
  with rne have lr: "\<not> isspace (last ?r)" by (simp add: rstrip_def last_rev)
  have "?r = takeWhile isspace ?r @ dropWhile isspace ?r" by simp
  with ne have "last ?r = last (dropWhile isspace ?r)" by (metis last_appendR)
  with lr have "\<not> isspace (last (strip t))" by (simp add: strip_def lstrip_def)
  with h show ?thesis by (simp add: ends_ok_def)
qed

lemma rstrip_id: "t = [] \<or> \<not> isspace (last t) \<Longrightarrow> rstrip t = t"
proof (cases t rule: rev_cases)
  case Nil
  then show ?thesis by (simp add: rstrip_def)
next
  case (snoc ys y)
  assume "t = [] \<or> \<not> isspace (last t)"
  with snoc show ?thesis by (simp add: rstrip_def)
qed

lemma lstrip_id: "t = [] \<or> \<not> isspace (hd t) \<Longrightarrow> lstrip t = t"
  by (cases t) (auto simp: lstrip_def)

lemma strip_id: "ends_ok t \<Longrightarrow> strip t = t"
  by (auto simp: ends_ok_def strip_def rstrip_id lstrip_id)

lemma sanitize_input_length:
  assumes "0 < n"
  shows "int (length (sanitize_input s (Some n) b)) \<le> n"
proof -
  have "length (rstrip (take (nat n) t)) \<le> nat n" for t
    using length_rstrip [of "take (nat n) t"] by simp
  then have "int (length (rstrip (take (nat n) t))) \<le> n" for t
    using assms by (simp add: le_nat_iff [symmetric])
  with assms show ?thesis
    by (simp add: sanitize_input_def Let_def slice_to_def)
qed

lemma sanitize_input_collapsed:
  assumes "0 < n"
  shows "collapse_ws False (sanitize_input s (Some n) b) = sanitize_input s (Some n) b"
  using assms
  by (simp add: sanitize_input_def Let_def slice_to_def collapse_ws_idem collapse_ws_take
      collapse_ws_rstrip)

lemma sanitize_input_no_ctrl:
  assumes "0 < n" and "c \<in> set (sanitize_input s (Some n) b)"
  shows "\<not> is_ctrl c"
proof -
  define t3 where "t3 = filter (\<lambda>c. \<not> is_ctrl c)
    (if \<not> b then replace_char 13 32 (replace_char 10 32 (strip s)) else strip s)"
  have "set (rstrip (take (nat n) (collapse_ws False t3))) \<subseteq> set (collapse_ws False t3)"
    using set_rstrip [of "take (nat n) (collapse_ws False t3)"]
      set_take_subset [of "nat n" "collapse_ws False t3"] by (rule subset_trans)
  moreover have "sanitize_input s (Some n) b =
      (if int (length (collapse_ws False t3)) > n then rstrip (take (nat n) (collapse_ws False t3))
       else collapse_ws False t3)"
    using assms(1) by (simp add: sanitize_input_def Let_def slice_to_def t3_def)
  ultimately have "set (sanitize_input s (Some n) b) \<subseteq> set (collapse_ws False t3)"
    by simp
  with assms(2) set_collapse_ws [of False t3] have "c = 32 \<or> c \<in> set t3" by auto
  then show ?thesis by (auto simp: t3_def is_ctrl_def)
qed

lemma sanitize_input_fixed:
  assumes col: "collapse_ws False r = r"
    and ctl: "\<forall>c\<in>set r. \<not> is_ctrl c"
    and len: "int (length r) \<le> n"
  shows "sanitize_input r (Some n) b = strip r"
proof -
  have c1: "collapse_ws False (strip r) = strip r"
    using col by (simp add: strip_def collapse_ws_rstrip collapse_ws_lstrip)
  have sp: "c = 32" if "c \<in> set (strip r)" "isspace c" for c
    using c1 that by (rule collapse_ws_space_32)
  have "10 \<notin> set (strip r)" "13 \<notin> set (strip r)"
    using sp [of 10] sp [of 13] by (auto simp: isspace_def)
  then have "replace_char 10 32 (strip r) = strip r" "replace_char 13 32 (strip r) = strip r"
    unfolding replace_char_def by (auto intro!: map_idI)
  moreover have "filter (\<lambda>c. \<not> is_ctrl c) (strip r) = strip r"
    using ctl set_strip [of r] by (auto intro: filter_True)
  moreover have "int (length (strip r)) \<le> n"
    using len length_strip [of r] by simp
  ultimately show ?thesis
    using c1 by (simp add: sanitize_input_def Let_def)
qed

lemma sanitize_input_twice:
  assumes "0 < n"
  shows "sanitize_input (sanitize_input s (Some n) b) (Some n) b' =
         strip (sanitize_input s (Some n) b)"
  using assms sanitize_input_collapsed sanitize_input_no_ctrl sanitize_input_length
  by (intro sanitize_input_fixed) auto

lemma collapse_ws_last:
  "t \<noteq> [] \<Longrightarrow> \<not> isspace (last t) \<Longrightarrow>
   collapse_ws b t \<noteq> [] \<and> last (collapse_ws b t) = last t"
proof (induction t arbitrary: b)
  case Nil
  then show ?case by simp
next
  case (Cons c cs)
  show ?case
  proof (cases "cs = []")
    case True
    with Cons.prems show ?thesis by simp
  next
    case False
    with Cons.prems have "\<not> isspace (last cs)" by simp
    with False Cons.IH have "collapse_ws b' cs \<noteq> [] \<and> last (collapse_ws b' cs) = last cs" for b'
      by blast
    with False show ?thesis by simp
  qed
qed

lemma ends_ok_collapse_ws: "ends_ok t \<Longrightarrow> ends_ok (collapse_ws b t)"
proof (cases t)
  case Nil
  then show ?thesis by (simp add: ends_ok_def)
next
  case (Cons c cs)
  assume "ends_ok t"
  with Cons have h: "\<not> isspace c" and l: "\<not> isspace (last t)" by (auto simp: ends_ok_def)
  from Cons l collapse_ws_last [of t b]
  have "collapse_ws b t \<noteq> []" "last (collapse_ws b t) = last t" by auto
  moreover from Cons h have "hd (collapse_ws b t) = c" by simp
  ultimately show ?thesis using h l by (simp add: ends_ok_def)
qed

lemma ends_ok_replace_char: "isspace a \<Longrightarrow> ends_ok t \<Longrightarrow> ends_ok (replace_char a b t)"
  by (auto simp: ends_ok_def replace_char_def hd_map last_map split: if_splits)

lemma ends_ok_replace_char_eq:
  "isspace a \<Longrightarrow> ends_ok t \<Longrightarrow> t \<noteq> [] \<Longrightarrow>
   hd (replace_char a b t) = hd t \<and> last (replace_char a b t) = last t"
  by (auto simp: ends_ok_def replace_char_def hd_map last_map)

lemma last_filter_keep: "t \<noteq> [] \<Longrightarrow> P (last t) \<Longrightarrow> last (filter P t) = last t"
  by (cases t rule: rev_cases) auto

lemma ends_ok_filter:
  assumes "ends_ok t" and "t = [] \<or> (P (hd t) \<and> P (last t))"
  shows "ends_ok (filter P t)"
proof (cases t)
  case Nil
  then show ?thesis by (simp add: ends_ok_def)
next
  case (Cons c cs)
  with assms(2) have "P c" "P (last t)" by auto
  with Cons have "hd (filter P t) = hd t" "last (filter P t) = last t" "filter P t \<noteq> []"
    using last_filter_keep [of t P] by auto
  with assms(1) Cons show ?thesis by (simp add: ends_ok_def)
qed

lemma ends_ok_rstrip_take:
  assumes "ends_ok t" and "0 < k"
  shows "ends_ok (rstrip (take k t))"
proof (cases "rstrip (take k t) = []")
  case True
  then show ?thesis by (simp add: ends_ok_def)
next
  case False
  let ?u = "take k t"
  from False have une: "?u \<noteq> []" by (cases ?u) (simp_all add: rstrip_def)
  then have tne: "t \<noteq> []" by auto
  from False have "dropWhile isspace (rev ?u) \<noteq> []" by (simp add: rstrip_def)
  then have "\<not> isspace (hd (dropWhile isspace (rev ?u)))" by (rule hd_dropWhile)
  with False have l: "\<not> isspace (last (rstrip ?u))" by (simp add: rstrip_def last_rev)
  have "rstrip ?u = take (length (rstrip ?u)) ?u" by (rule rstrip_take)
  moreover from False have "0 < length (rstrip ?u)" by simp
  ultimately have "hd (rstrip ?u) = hd ?u" by (metis hd_take)
  also from assms(2) have "\<dots> = hd t" by simp
  finally have "hd (rstrip ?u) = hd t" .
  with assms(1) tne l False show ?thesis by (simp add: ends_ok_def)
qed

lemma sanitize_input_ends_ok:
  assumes n: "0 < n" and c: "\<not> ctrl_at_ends (strip s)"
  shows "ends_ok (sanitize_input s (Some n) b)"
proof -
  define t2 where "t2 = (if \<not> b then replace_char 13 32 (replace_char 10 32 (strip s)) else strip s)"
  define t4 where "t4 = collapse_ws False (filter (\<lambda>c. \<not> is_ctrl c) t2)"
  have e1: "ends_ok (strip s)" by (rule ends_ok_strip)
  have sp: "isspace 10" "isspace 13" by (simp_all add: isspace_def)
  have e2: "ends_ok t2"
    using e1 sp by (simp add: t2_def ends_ok_replace_char)
  have hl: "t2 = [] \<or> (hd t2 = hd (strip s) \<and> last t2 = last (strip s))"
  proof (cases "strip s = []")
    case True
    then show ?thesis by (simp add: t2_def replace_char_def)
  next
    case False
    then have r1: "replace_char 10 32 (strip s) \<noteq> []" by (simp add: replace_char_def)
    have "ends_ok (replace_char 10 32 (strip s))" using e1 sp by (simp add: ends_ok_replace_char)
    with r1 sp ends_ok_replace_char_eq [of 13 "replace_char 10 32 (strip s)" 32]
      ends_ok_replace_char_eq [of 10 "strip s" 32] e1 False
    show ?thesis by (simp add: t2_def)
  qed
  have "t2 = [] \<or> (\<not> is_ctrl (hd t2) \<and> \<not> is_ctrl (last t2))"
  proof (cases "t2 = []")
    case True
    then show ?thesis by simp
  next
    case False
    then have "strip s \<noteq> []" by (auto simp: t2_def replace_char_def split: if_splits)
    with c hl False show ?thesis by (simp add: ctrl_at_ends_def)
  qed
  with e2 have "ends_ok (filter (\<lambda>c. \<not> is_ctrl c) t2)" by (rule ends_ok_filter)
  then have e4: "ends_ok t4" unfolding t4_def by (rule ends_ok_collapse_ws)
  have "sanitize_input s (Some n) b =
      (if int (length t4) > n then rstrip (take (nat n) t4) else t4)"
    using n by (simp add: sanitize_input_def Let_def slice_to_def t4_def t2_def)
  with e4 n show ?thesis by (simp add: ends_ok_rstrip_take)
qed

text \<open>
  Claim C10, as amended. For every string and every positive bound, the result of
  \<open>sanitize_input\<close> is no longer than the bound, and a second application does nothing
  but strip the first result. The function is therefore idempotent on every string whose
  stripped form neither starts nor ends with one of the control characters it removes
  (in particular on every string without such characters).
\<close>

theorem sanitize_input_bounded_idempotent:
  assumes "0 < n"
  shows "int (length (sanitize_input s (Some n) False)) \<le> n \<and>
         sanitize_input (sanitize_input s (Some n) False) (Some n) False =
           strip (sanitize_input s (Some n) False) \<and>
         (\<not> ctrl_at_ends (strip s) \<longrightarrow>
            sanitize_input (sanitize_input s (Some n) False) (Some n) False =
              sanitize_input s (Some n) False)"
  using assms
  by (simp add: sanitize_input_length sanitize_input_twice sanitize_input_ends_ok strip_id)

theorem sanitize_input_bounded_idempotent_witness:
  "(0::int) < 20 \<and> \<not> ctrl_at_ends (strip (asc ''  a  b ''))
   \<and> sanitize_input (asc ''  a  b '') (Some 20) False = asc ''a b''
   \<and> sanitize_input (sanitize_input (asc ''  a  b '') (Some 20) False) (Some 20) False = asc ''a b''"
  using sanitize_input_bounded_idempotent [of 20 "asc ''  a  b ''"]
  by (simp add: sanitize_input_def strip_def lstrip_def rstrip_def replace_char_def isspace_def
      is_ctrl_def slice_to_def asc_def ctrl_at_ends_def)

text \<open>
  Claim C10 as stated fails: the string made of a NUL character, a space and the letter
  \<open>a\<close> is sanitised to a space followed by \<open>a\<close> (the NUL is removed after the strip), and
  sanitising that again strips the space.
\<close>

theorem sanitize_input_not_idempotent:
  "sanitize_input [0, 32, 97] (Some 20) False = [32, 97] \<and>
   sanitize_input (sanitize_input [0, 32, 97] (Some 20) False) (Some 20) False = [97] \<and>
   sanitize_input (sanitize_input [0, 32, 97] (Some 20) False) (Some 20) False \<noteq>
     sanitize_input [0, 32, 97] (Some 20) False"
  by (simp add: sanitize_input_def strip_def lstrip_def rstrip_def replace_char_def isspace_def
      is_ctrl_def slice_to_def)

section \<open>Sending, and the fan-out of \<open>broadcast_message\<close>\<close>

lemma send_message_ok:
  "can_send (socket c) \<Longrightarrow>
   send_message c m now = (c\<lparr>socket := (socket c)\<lparr>outbox := outbox (socket c) @ [m]\<rparr>, last_activity := now\<rparr>, True)"
  by (simp add: send_message_def sock_send_def can_send_def)

lemma send_message_fail:
  "\<not> can_send (socket c) \<Longrightarrow> send_message c m now = (c\<lparr>is_active := False\<rparr>, False)"
  by (auto simp: send_message_def sock_send_def can_send_def)














lemmas example_defs =
  example_server_def example_heap_def example_time_def ClientConnection_def new_sock_def asc_def

lemmas format_defs =
  format_message_def sanitize_input_def strip_def lstrip_def rstrip_def replace_char_def
  isspace_def is_ctrl_def slice_to_def strftime_hms_def pad2_def str_nat.simps
  MAX_NICKNAME_LENGTH_def MAX_MESSAGE_LENGTH_def Let_def

lemma example_alice:
  "heap example_server 0 =
     \<lparr>socket = \<lparr>outbox = [], closed = False, peer_gone = False\<rparr>,
      address = (asc ''10.0.0.7'', 5000), nickname = asc ''Alice'',
      connected_time = example_time, last_activity = example_time, is_active = True\<rparr>"
  by (simp add: example_server_def example_heap_def ClientConnection_def new_sock_def asc_def)


lemma example_registry:
  "clients example_server = [(asc ''10.0.0.7:5000'', 0), (asc ''10.0.0.8:5001'', Suc 0)]"
  "distinct (map fst (clients example_server))"
  "distinct (map snd (clients example_server))"
  "asc ''10.0.0.7:5000'' \<noteq> asc ''10.0.0.8:5001''"
  by (simp_all add: example_server_def asc_def)





section \<open>The handshake\<close>

lemma authenticate_client_match:
  "strip d = room_password s \<Longrightarrow>
   authenticate_client s (new_sock False) (Data d) =
     (True, \<lparr>outbox = [asc ''PASSWORD_REQUEST'', asc ''AUTH_SUCCESS''], closed = False,
             peer_gone = False\<rparr>)"
  by (simp add: authenticate_client_def sock_send_def new_sock_def)

lemma authenticate_client_mismatch:
  "strip d \<noteq> room_password s \<Longrightarrow>
   authenticate_client s (new_sock False) (Data d) =
     (False, \<lparr>outbox = [asc ''PASSWORD_REQUEST'', asc ''AUTH_FAILED''], closed = False,
              peer_gone = False\<rparr>)"
  by (simp add: authenticate_client_def sock_send_def new_sock_def)

lemma get_client_nickname_sent:
  "can_send sk \<Longrightarrow>
   get_client_nickname U sk nickname_data unix_time =
     ((case nickname_data of
         Data d \<Rightarrow> if strip d \<noteq> [] \<and> length (strip d) \<le> 20 \<and> isalnum U (strip d)
                   then strip d else placeholder_name unix_time
       | _ \<Rightarrow> placeholder_name unix_time),
      sk\<lparr>outbox := outbox sk @ [asc ''NICKNAME_REQUEST'']\<rparr>)"
  by (simp add: get_client_nickname_def sock_send_def can_send_def Let_def
      split: recv_result.splits)

lemma placeholder_name_nonempty: "placeholder_name unix_time \<noteq> []"
  by (simp add: placeholder_name_def asc_def)

lemma fst_get_client_nickname_nonempty: "fst (get_client_nickname U sk nickname_data unix_time) \<noteq> []"
  by (auto simp: get_client_nickname_def Let_def placeholder_name_nonempty
      split: option.splits recv_result.splits)

lemma accept_connections_step_admitted:
  assumes "length (clients s) < MAX_CLIENTS" and "strip d = room_password s"
  shows "accept_connections_step U s addr False (Data d) nickname_data now unix_time =
     (s\<lparr>clients := AList.update (client_id_of addr) (next_ref s) (clients s),
        heap := (heap s)(next_ref s :=
          \<lparr>socket = \<lparr>outbox = [asc ''PASSWORD_REQUEST'', asc ''AUTH_SUCCESS'',
                                asc ''NICKNAME_REQUEST''], closed = False, peer_gone = False\<rparr>,
           address = addr,
           nickname = (case nickname_data of
               Data n \<Rightarrow> if strip n \<noteq> [] \<and> length (strip n) \<le> 20 \<and> isalnum U (strip n)
                         then strip n else placeholder_name unix_time
             | _ \<Rightarrow> placeholder_name unix_time),
           connected_time = now, last_activity = now, is_active = True\<rparr>),
        next_ref := Suc (next_ref s)\<rparr>,
      \<lparr>outbox = [asc ''PASSWORD_REQUEST'', asc ''AUTH_SUCCESS'', asc ''NICKNAME_REQUEST''],
       closed = False, peer_gone = False\<rparr>,
      Admitted (next_ref s))"
proof -
  let ?sk = "\<lparr>outbox = [asc ''PASSWORD_REQUEST'', asc ''AUTH_SUCCESS''], closed = False,
              peer_gone = False\<rparr>"
  have cs: "can_send ?sk" by (simp add: can_send_def)
  have ne: "(case nickname_data of
               Data n \<Rightarrow> if strip n \<noteq> [] \<and> length (strip n) \<le> 20 \<and> isalnum U (strip n)
                         then strip n else placeholder_name unix_time
             | _ \<Rightarrow> placeholder_name unix_time) \<noteq> []"
    using fst_get_client_nickname_nonempty [of U ?sk nickname_data unix_time]
    by (simp add: get_client_nickname_sent [OF cs])
  show ?thesis
    using assms ne
    by (simp add: accept_connections_step_def Let_def authenticate_client_match
        get_client_nickname_sent [OF cs] ClientConnection_def)
qed

lemma accept_connections_step_auth_failed:
  assumes "length (clients s) < MAX_CLIENTS" and "strip d \<noteq> room_password s"
  shows "accept_connections_step U s addr False (Data d) nickname_data now unix_time =
     (s, \<lparr>outbox = [asc ''PASSWORD_REQUEST'', asc ''AUTH_FAILED''], closed = True,
          peer_gone = False\<rparr>, AuthFailed)"
  using assms
  by (simp add: accept_connections_step_def Let_def authenticate_client_mismatch sock_close_def)


lemma count_key_update:
  "distinct (map fst xs) \<Longrightarrow> length (filter (\<lambda>e. fst e = k) (AList.update k v xs)) = 1"
proof (induction xs)
  case Nil
  then show ?case by simp
next
  case (Cons x xs)
  obtain a b where x: "x = (a, b)" by (cases x)
  show ?case
  proof (cases "a = k")
    case True
    with Cons.prems x have "k \<notin> fst ` set xs" by auto
    then have "filter (\<lambda>e. fst e = k) xs = []" by (auto simp: filter_empty_conv)
    with True x show ?thesis by simp
  next
    case False
    with Cons x show ?thesis by simp
  qed
qed

lemma example_room:
  "length (clients example_server) < MAX_CLIENTS"
  "room_password example_server = asc ''room1''"
  "next_ref example_server = 2"
  by (simp_all add: example_server_def MAX_CLIENTS_def)

lemma strip_examples:
  "strip (asc ''room1'') = asc ''room1''"
  "strip (asc '' room1'') = asc ''room1''"
  "strip (asc ''wrong'') = asc ''wrong''"
  "strip (asc ''a_b'') = asc ''a_b''"
  "strip (asc ''Carol'') = asc ''Carol''"
  by (simp_all add: strip_def lstrip_def rstrip_def isspace_def asc_def)


text \<open>
  Claim C1, as amended. For a connection taken while the registry has room and whose peer
  stays connected: when the submitted credential, stripped of surrounding white space,
  equals the room secret, the handshake completes (password request, success marker,
  nickname request), and the connection is in the registry exactly once, under its id;
  when the stripped credential differs, the server sends the auth-failure marker, closes
  the socket and leaves the server, and so the registry, as it was.
\<close>

theorem handshake_admission:
  assumes "length (clients s) < MAX_CLIENTS" and "distinct (map fst (clients s))"
  shows
    "(strip d = room_password s \<longrightarrow>
        (case accept_connections_step U s addr False (Data d) nickname_data now unix_time of
           (s', sk, out) \<Rightarrow>
             out = Admitted (next_ref s) \<and>
             outbox sk = [asc ''PASSWORD_REQUEST'', asc ''AUTH_SUCCESS'', asc ''NICKNAME_REQUEST''] \<and>
             \<not> closed sk \<and>
             socket (heap s' (next_ref s)) = sk \<and>
             address (heap s' (next_ref s)) = addr \<and>
             is_active (heap s' (next_ref s)) \<and>
             map_of (clients s') (client_id_of addr) = Some (next_ref s) \<and>
             length (filter (\<lambda>e. fst e = client_id_of addr) (clients s')) = 1)) \<and>
     (strip d \<noteq> room_password s \<longrightarrow>
        (case accept_connections_step U s addr False (Data d) nickname_data now unix_time of
           (s', sk, out) \<Rightarrow>
             out = AuthFailed \<and> s' = s \<and>
             outbox sk = [asc ''PASSWORD_REQUEST'', asc ''AUTH_FAILED''] \<and> closed sk))"
  using assms
  by (simp add: accept_connections_step_admitted accept_connections_step_auth_failed
      count_key_update update_Some_unfold)

theorem handshake_admission_witness:
  "length (clients example_server) < MAX_CLIENTS \<and>
   distinct (map fst (clients example_server)) \<and>
   strip (asc ''room1'') = room_password example_server \<and>
   snd (snd (accept_connections_step no_alnum example_server (asc ''10.0.0.9'', 4000) False
      (Data (asc ''room1'')) (Data (asc ''Carol'')) example_time 1700000000)) = Admitted 2 \<and>
   strip (asc ''wrong'') \<noteq> room_password example_server \<and>
   snd (snd (accept_connections_step no_alnum example_server (asc ''10.0.0.9'', 4000) False
      (Data (asc ''wrong'')) (Data (asc ''Carol'')) example_time 1700000000)) = AuthFailed \<and>
   closed (fst (snd (accept_connections_step no_alnum example_server (asc ''10.0.0.9'', 4000)
      False (Data (asc ''wrong'')) (Data (asc ''Carol'')) example_time 1700000000)))"
proof -
  have w: "strip (asc ''wrong'') \<noteq> room_password example_server"
    unfolding strip_examples example_room by (simp add: asc_def)
  have m: "strip (asc ''room1'') = room_password example_server"
    by (simp add: strip_examples example_room)
  from handshake_admission [where s = example_server and d = "asc ''room1''" and U = no_alnum
        and addr = "(asc ''10.0.0.9'', 4000)" and nickname_data = "Data (asc ''Carol'')"
        and now = example_time and unix_time = 1700000000,
        OF example_room(1) example_registry(2)]
    handshake_admission [where s = example_server and d = "asc ''wrong''" and U = no_alnum
        and addr = "(asc ''10.0.0.9'', 4000)" and nickname_data = "Data (asc ''Carol'')"
        and now = example_time and unix_time = 1700000000,
        OF example_room(1) example_registry(2)]
  show ?thesis
    using w m example_room example_registry(2)
    by (simp add: case_prod_unfold)
qed

text \<open>
  Claim C1 as stated fails: a credential with a leading space differs from the secret
  \<open>room1\<close>, yet the server strips it before comparing and admits the connection.
\<close>

theorem handshake_admits_padded_credential:
  "asc '' room1'' \<noteq> room_password example_server \<and>
   snd (accept_connections_step no_alnum example_server (asc ''10.0.0.9'', 4000) False
      (Data (asc '' room1'')) (Data (asc ''Carol'')) example_time 1700000000) =
     (\<lparr>outbox = [asc ''PASSWORD_REQUEST'', asc ''AUTH_SUCCESS'', asc ''NICKNAME_REQUEST''],
       closed = False, peer_gone = False\<rparr>, Admitted 2)"
proof -
  have m: "strip (asc '' room1'') = room_password example_server"
    by (simp add: strip_examples example_room)
  have "asc '' room1'' \<noteq> room_password example_server"
    by (simp add: example_room asc_def)
  then show ?thesis
    by (simp add: accept_connections_step_admitted [OF example_room(1) m] example_room)
qed

lemma isalnum_no_underscore: "isalnum U n \<Longrightarrow> 95 \<notin> set n"
  by (auto simp: isalnum_def isalnum_char_def list_all_iff)

text \<open>
  Claim C5, as amended. Once the credential is accepted the connection is always admitted,
  whatever the nickname read yields. The display name is the submitted nickname, stripped,
  when that is not empty, has at most 20 characters and is alphanumeric in the sense of
  \<open>str.isalnum\<close>; in every other case, a nickname with an underscore among them, it is the
  placeholder \<open>User_\<close> followed by the Unix time modulo 10000.
\<close>

theorem nickname_negotiation:
  assumes "length (clients s) < MAX_CLIENTS" and "strip d = room_password s"
  shows
    "(case accept_connections_step U s addr False (Data d) nickname_data now unix_time of
        (s', sk, out) \<Rightarrow>
          out = Admitted (next_ref s) \<and>
          nickname (heap s' (next_ref s)) =
            (case nickname_data of
               Data n \<Rightarrow> if strip n \<noteq> [] \<and> length (strip n) \<le> 20 \<and> isalnum U (strip n)
                         then strip n else placeholder_name unix_time
             | _ \<Rightarrow> placeholder_name unix_time) \<and>
          (\<forall>n. nickname_data = Data n \<and> 95 \<in> set (strip n) \<longrightarrow>
             nickname (heap s' (next_ref s)) = placeholder_name unix_time)) \<and>
     placeholder_name unix_time = asc ''User_'' @ str_nat (unix_time mod 10000)"
  using assms isalnum_no_underscore [of U]
  by (auto simp: accept_connections_step_admitted placeholder_name_def)

theorem nickname_negotiation_witness:
  "length (clients example_server) < MAX_CLIENTS \<and>
   strip (asc ''room1'') = room_password example_server \<and>
   nickname (heap (fst (accept_connections_step no_alnum example_server (asc ''10.0.0.9'', 4000)
      False (Data (asc ''room1'')) (Data (asc ''Carol'')) example_time 1234567)) 2) = asc ''Carol''"
proof -
  have m: "strip (asc ''room1'') = room_password example_server"
    by (simp add: strip_examples example_room)
  have a: "isalnum no_alnum (asc ''Carol'')" "asc ''Carol'' \<noteq> []" "length (asc ''Carol'') \<le> 20"
    by (simp_all add: isalnum_def isalnum_char_def asc_def)
  from nickname_negotiation [where s = example_server and d = "asc ''room1''" and U = no_alnum
        and addr = "(asc ''10.0.0.9'', 4000)" and nickname_data = "Data (asc ''Carol'')"
        and now = example_time and unix_time = 1234567, OF example_room(1) m]
  show ?thesis
    using m a example_room by (simp add: case_prod_unfold strip_examples)
qed

text \<open>
  Claim C5 as stated fails: the nickname \<open>a_b\<close> (letters and an underscore, three
  characters) is not kept, and the placeholder that replaces it comes from the clock
  (\<open>1234567 mod 10000\<close>), not from the port \<open>4000\<close>.
\<close>

theorem nickname_with_underscore_replaced:
  "length (asc ''a_b'') \<le> 20 \<and>
   nickname (heap (fst (accept_connections_step no_alnum example_server (asc ''10.0.0.9'', 4000)
      False (Data (asc ''room1'')) (Data (asc ''a_b'')) example_time 1234567)) 2) = asc ''User_4567'' \<and>
   asc ''User_4567'' \<noteq> asc ''a_b'' \<and>
   asc ''User_4567'' \<noteq> asc ''User_'' @ str_nat 4000"
proof -
  have m: "strip (asc ''room1'') = room_password example_server"
    by (simp add: strip_examples example_room)
  have a: "\<not> isalnum no_alnum (asc ''a_b'')"
    by (simp add: isalnum_def isalnum_char_def asc_def)
  have p: "placeholder_name 1234567 = asc ''User_4567''"
    by (simp add: placeholder_name_def str_nat.simps asc_def)
  have q: "asc ''User_4567'' \<noteq> asc ''a_b''" "asc ''User_4567'' \<noteq> asc ''User_'' @ str_nat 4000"
    "length (asc ''a_b'') \<le> 20"
    by (simp_all add: str_nat.simps asc_def)
  show ?thesis
    using a p q
    by (simp add: accept_connections_step_admitted [OF example_room(1) m] example_room
        strip_examples)
qed

section \<open>The capacity of the registry\<close>


lemma clients_handle_command: "clients (handle_command s r command now) = clients s"
  by (simp add: handle_command_def case_prod_unfold)

















section \<open>Teardown and kick\<close>











section \<open>The client\<close>


lemma client_send_message_too_long:
  "length m > MAX_MESSAGE_SIZE \<Longrightarrow> client_send_message c m = (c, False)"
  by (simp add: client_send_message_def split: option.splits)

lemma concat_map_single: "concat (map (\<lambda>i. [h i]) xs) = map h xs"
  by (induction xs) simp_all

lemma lower_ascii:
  assumes "\<forall>c\<in>set s. c < 128"
  shows "lower L s = map (\<lambda>c. if 65 \<le> c \<and> c \<le> 90 then c + 32 else c) s"
proof -
  let ?g = "\<lambda>c. if 65 \<le> c \<and> c \<le> 90 then c + 32 else c"
  let ?A = "\<lambda>i. let c = s ! i in if c < 128 then [?g c] else L s i"
  have m: "map ?A [0..<length s] = map (\<lambda>i. [?g (s ! i)]) [0..<length s]"
    using assms by (intro map_cong) (simp_all add: Let_def)
  have "lower L s = concat (map ?A [0..<length s])"
    by (simp only: lower_def)
  also have "\<dots> = concat (map (\<lambda>i. [?g (s ! i)]) [0..<length s])"
    by (simp only: m)
  also have "\<dots> = map (\<lambda>i. ?g (s ! i)) [0..<length s]"
    by (rule concat_map_single)
  also have "\<dots> = map ?g (map (\<lambda>i. s ! i) [0..<length s])"
    by (simp add: comp_def)
  also have "\<dots> = map ?g s"
    by (simp only: map_nth)
  finally show ?thesis .
qed


lemma example_client_facts:
  "client_socket example_client = Some (new_sock False)"
  "is_connected example_client"
  "client_is_running example_client"
  "can_send (new_sock False)"
  "outbox (new_sock False) = []"
  by (simp_all add: example_client_def new_sock_def can_send_def)





lemma strip_replicate: "\<not> isspace a \<Longrightarrow> strip (replicate n a) = replicate n a"
  by (rule strip_id) (cases n, simp_all add: ends_ok_def hd_replicate last_replicate)

text \<open>
  Claim C6 at a body of 501 characters. \<open>send_message\<close> writes nothing and returns
  \<open>False\<close>, leaving the client as it was; but \<open>handle_user_input\<close> takes every \<open>False\<close>
  for a lost connection and leaves its loop, so \<open>run\<close> goes on to \<open>disconnect\<close>: the socket
  is closed with nothing written, and the next typed line is never read.
\<close>

theorem overlong_message_ends_client:
  "length (replicate 501 (97::nat)) = 501 \<and>
   client_send_message example_client (replicate 501 97) = (example_client, False) \<and>
   handle_user_input_step no_lower example_client (Line (replicate 501 97)) =
     (example_client, False) \<and>
   client_run no_lower example_client [Line (replicate 501 97), Line (asc ''hello'')] =
     Some (example_client\<lparr>client_is_running := False, is_connected := False,
             client_socket := None\<rparr>,
           Some \<lparr>outbox = [], closed = True, peer_gone = False\<rparr>)"
proof -
  let ?m = "replicate 501 (97::nat)"
  have s: "strip ?m = ?m" by (rule strip_replicate) (simp add: isspace_def)
  have l: "lower no_lower ?m = ?m" by (simp add: lower_ascii)
  have len: "length ?m > MAX_MESSAGE_SIZE" by (simp add: MAX_MESSAGE_SIZE_def)
  have n: "?m \<noteq> []" "hd ?m = 97" by simp_all
  have slash: "hd x = 47"
    if "x \<in> {asc ''/quit'', asc ''/exit'', asc ''/q'', asc ''/help'',
          asc ''/clear'', asc ''/cls'', asc ''/time''}" for x :: pstr
    using that by (auto simp: asc_def)
  have nc: "?m \<notin> {asc ''/quit'', asc ''/exit'', asc ''/q'', asc ''/help'',
          asc ''/clear'', asc ''/cls'', asc ''/time''}"
  proof
    assume "?m \<in> {asc ''/quit'', asc ''/exit'', asc ''/q'', asc ''/help'',
          asc ''/clear'', asc ''/cls'', asc ''/time''}"
    then have "hd ?m = 47" by (rule slash)
    with n show False by simp
  qed
  have send: "client_send_message example_client ?m = (example_client, False)"
    using len by (rule client_send_message_too_long)
  have step: "handle_user_input_step no_lower example_client (Line ?m) = (example_client, False)"
    using nc n(1) by (simp add: handle_user_input_step_def Let_def s l send)
  have run: "client_run no_lower example_client [Line ?m, Line (asc ''hello'')] =
     Some (example_client\<lparr>client_is_running := False, is_connected := False,
             client_socket := None\<rparr>,
           Some \<lparr>outbox = [], closed = True, peer_gone = False\<rparr>)"
  proof -
    have e: "example_client\<lparr>client_is_running := True\<rparr> = example_client"
      by (simp add: example_client_def)
    show ?thesis
      unfolding client_run_def e
      by (simp add: step example_client_facts disconnect_def sock_close_def new_sock_def)
  qed
  show ?thesis using send step run by simp
qed

section \<open>The command interpreter\<close>

lemma handle_command_reply:
  assumes "can_send (socket (heap s r))"
  shows "heap (handle_command s r command now) r =
     (heap s r)\<lparr>socket := (socket (heap s r))\<lparr>outbox := outbox (socket (heap s r)) @
          [if command = asc ''/quit'' then format_message SYSTEM farewell_text now
           else if command = asc ''/help'' then help_text
           else if command = asc ''/users'' then
             format_message SYSTEM (users_text (online_users s)) now
           else if command = asc ''/time'' then format_message SYSTEM (time_text now) now
           else format_message SYSTEM (unknown_command_text command) now]\<rparr>,
        last_activity := now,
        is_active := is_active (heap s r) \<and> command \<noteq> asc ''/quit''\<rparr>"
  using assms by (simp add: handle_command_def send_message_ok)

lemma handle_command_write_failure:
  assumes "\<not> can_send (socket (heap s r))"
  shows "heap (handle_command s r command now) r = (heap s r)\<lparr>is_active := False\<rparr>"
  using assms by (simp add: handle_command_def send_message_fail)

text \<open>
  Claim C8. \<open>handle_command\<close> is a total function: no input makes it raise. For an
  issuer whose socket accepts the write, every command gets exactly one reply; a command
  other than \<open>/quit\<close>, \<open>/help\<close>, \<open>/users\<close> and \<open>/time\<close> gets the unknown-command notice;
  the issuer's active flag is unchanged except by \<open>/quit\<close>, its socket stays open and the
  registry is unchanged.
\<close>

theorem handle_command_always_replies:
  assumes "can_send (socket (heap s r))"
  shows
    "(command \<notin> {asc ''/quit'', asc ''/help'', asc ''/users'', asc ''/time''} \<longrightarrow>
        outbox (socket (heap (handle_command s r command now) r)) =
          outbox (socket (heap s r)) @
            [format_message SYSTEM (unknown_command_text command) now]) \<and>
     (\<exists>reply. outbox (socket (heap (handle_command s r command now) r)) =
        outbox (socket (heap s r)) @ [reply]) \<and>
     (is_active (heap (handle_command s r command now) r) \<longleftrightarrow>
        is_active (heap s r) \<and> command \<noteq> asc ''/quit'') \<and>
     \<not> closed (socket (heap (handle_command s r command now) r)) \<and>
     clients (handle_command s r command now) = clients s"
  using assms
  by (simp add: handle_command_reply clients_handle_command can_send_def)

lemma unknown_example:
  "format_message SYSTEM (unknown_command_text (asc ''/foo'')) example_time =
     asc ''[03:04:05] '' @ [31995, 32479] @ asc '': '' @ [10067, 32, 26410, 30693, 21629, 20196, 58, 32] @
     asc ''/foo'' @ [65292, 36755, 20837, 32] @ asc ''/help '' @ [26597, 30475, 24110, 21161]"
  by (simp add: unknown_command_text_def SYSTEM_def example_time_def asc_def format_defs)

theorem handle_command_always_replies_witness:
  "can_send (socket (heap example_server 0)) \<and>
   asc ''/foo'' \<notin> {asc ''/quit'', asc ''/help'', asc ''/users'', asc ''/time''} \<and>
   outbox (socket (heap (handle_command example_server 0 (asc ''/foo'') example_time) 0)) =
     [asc ''[03:04:05] '' @ [31995, 32479] @ asc '': '' @
      [10067, 32, 26410, 30693, 21629, 20196, 58, 32] @
      asc ''/foo'' @ [65292, 36755, 20837, 32] @ asc ''/help '' @ [26597, 30475, 24110, 21161]] \<and>
   is_active (heap (handle_command example_server 0 (asc ''/foo'') example_time) 0)"
proof -
  have c: "can_send (socket (heap example_server 0))" "is_active (heap example_server 0)"
    "outbox (socket (heap example_server 0)) = []"
    by (simp_all add: example_alice can_send_def)
  have n: "asc ''/foo'' \<notin> {asc ''/quit'', asc ''/help'', asc ''/users'', asc ''/time''}"
    by (simp add: asc_def)
  from handle_command_always_replies [OF c(1), of "asc ''/foo''" example_time]
  show ?thesis
    using c n unknown_example by simp
qed

section \<open>The registry: \<open>remove_client\<close>\<close>

lemma remove_client_keys:
  "fst ` set (clients (remove_client s cid)) = fst ` set (clients s) - {cid}"
  by (auto simp: remove_client_def AList.delete_eq image_iff)

text \<open>
  Claim C9. For every registry state and every client id, \<open>remove_client\<close> is idempotent:
  removing an id that is absent leaves the server (and so the registry) unchanged, and
  removing the same id twice is the same as removing it once.
\<close>

theorem remove_client_idempotent:
  "(cid \<notin> fst ` set (clients s) \<longrightarrow> remove_client s cid = s) \<and>
   remove_client (remove_client s cid) cid = remove_client s cid"
proof -
  have "cid \<notin> fst ` set (clients (remove_client s cid))"
    by (simp add: remove_client_keys)
  then show ?thesis
    by (simp add: remove_client_def)
qed

theorem remove_client_idempotent_witness:
  "asc ''10.0.0.9:4000'' \<notin> fst ` set (clients example_server) \<and>
   remove_client example_server (asc ''10.0.0.9:4000'') = example_server \<and>
   clients (remove_client (remove_client example_server (asc ''10.0.0.7:5000''))
     (asc ''10.0.0.7:5000'')) = [(asc ''10.0.0.8:5001'', 1)]"
  using remove_client_idempotent [of "asc ''10.0.0.9:4000''" example_server]
    remove_client_idempotent [of "asc ''10.0.0.7:5000''" example_server]
  by (simp add: example_server_def remove_client_def asc_def)

end
